theory Spec2Isabelle
  imports Main
begin

section \<open>Python values and strings\<close>

text \<open>
  A Python \<open>str\<close> is modelled as a \<open>string\<close>, one \<open>char\<close> per code point (code
  points 0 to 255). A \<open>dict\<close> with string keys is an association list in insertion
  order whose keys are pairwise different; \<open>map_of\<close> is the lookup.
\<close>

datatype pyval =
    PyNone
  | PyBool bool
  | PyInt int
  | PyStr string
  | PyList "pyval list"
  | PyDict "(string \<times> pyval) list"

type_synonym pydict = "(string \<times> pyval) list"

datatype exn =
    TypeError string
  | AttributeError string
  | Exception string

text \<open>
  \<open>str.isspace\<close> on one character: the code points below 256 that Python counts as
  whitespace are 9 to 13, 28 to 31, 32, 133 and 160.
\<close>

definition isspace :: "char \<Rightarrow> bool" where
  "isspace c = ((of_char c :: nat) \<in> {9, 10, 11, 12, 13, 28, 29, 30, 31, 32, 133, 160})"

definition lstrip :: "string \<Rightarrow> string" where
  "lstrip s = dropWhile isspace s"

definition rstrip :: "string \<Rightarrow> string" where
  "rstrip s = rev (dropWhile isspace (rev s))"

text \<open>\<open>str.strip()\<close> without argument removes leading and trailing whitespace.\<close>

definition strip :: "string \<Rightarrow> string" where
  "strip s = rstrip (lstrip s)"

text \<open>A string is trimmed when it neither starts nor ends with whitespace.\<close>

fun trimmed :: "string \<Rightarrow> bool" where
  "trimmed [] = True"
| "trimmed (c # cs) = (\<not> isspace c \<and> \<not> isspace (last (c # cs)))"

section \<open>sources/base.py: NewsItem\<close>

text \<open>
  A \<open>NewsItem\<close> as Python holds it. The dataclass checks no annotation, so each of the
  seven attributes holds a value of any type.
\<close>

record NewsItem_object =
  o_title :: pyval
  o_url :: pyval
  o_summary :: pyval
  o_source :: pyval
  o_published_at :: pyval
  o_score :: pyval
  o_extra :: pyval

text \<open>The truth value of a Python value, as \<open>if x\<close> tests it.\<close>

fun truthy :: "pyval \<Rightarrow> bool" where
  "truthy PyNone = False"
| "truthy (PyBool b) = b"
| "truthy (PyInt i) = (i \<noteq> 0)"
| "truthy (PyStr s) = (s \<noteq> [])"
| "truthy (PyList xs) = (xs \<noteq> [])"
| "truthy (PyDict d) = (d \<noteq> [])"

text \<open>
  \<open>x.strip() if x else ""\<close>: a falsy value, \<open>None\<close> included, gives the empty string;
  a truthy value that is no \<open>str\<close> has no \<open>strip\<close> and raises \<open>AttributeError\<close>.
\<close>

definition strip_or_empty :: "pyval \<Rightarrow> exn + pyval" where
  "strip_or_empty x =
     (if truthy x
      then (case x of PyStr s \<Rightarrow> Inr (PyStr (strip s)) | _ \<Rightarrow> Inl (AttributeError ''strip''))
      else Inr (PyStr []))"

text \<open>
  \<open>__post_init__\<close>: \<open>self.title = self.title.strip() if self.title else ""\<close>, then the
  same for \<open>summary\<close>. No other attribute is touched.
\<close>

definition post_init :: "NewsItem_object \<Rightarrow> exn + NewsItem_object" where
  "post_init self =
     (case strip_or_empty (o_title self) of
        Inl e \<Rightarrow> Inl e
      | Inr t \<Rightarrow>
          (case strip_or_empty (o_summary self) of
             Inl e \<Rightarrow> Inl e
           | Inr s \<Rightarrow> Inr (self\<lparr> o_title := t, o_summary := s \<rparr>)))"

definition field_names :: "string list" where
  "field_names = [''title'', ''url'', ''summary'', ''source'', ''published_at'', ''score'', ''extra'']"

text \<open>
  \<open>NewsItem(**kw)\<close>, the call of the constructor the dataclass generates, with the
  arguments given by keyword (as every source and \<open>analyze\<close> in main.py give them). It
  raises \<open>TypeError\<close> on a keyword that is no field and on a missing \<open>title\<close> or \<open>url\<close>;
  the other five parameters have the defaults \<open>""\<close>, \<open>""\<close>, \<open>""\<close>, \<open>0\<close> and a fresh
  empty dict. It stores the arguments as they are and runs \<open>__post_init__\<close>.
\<close>

definition NewsItem_kwargs :: "pydict \<Rightarrow> exn + NewsItem_object" where
  "NewsItem_kwargs kw =
     (case filter (\<lambda>k. k \<notin> set field_names) (map fst kw) of
        k # _ \<Rightarrow> Inl (TypeError k)
      | [] \<Rightarrow>
          (case map_of kw ''title'' of
             None \<Rightarrow> Inl (TypeError ''title'')
           | Some t \<Rightarrow>
               (case map_of kw ''url'' of
                  None \<Rightarrow> Inl (TypeError ''url'')
                | Some u \<Rightarrow>
                    post_init
                      \<lparr> o_title = t, o_url = u,
                        o_summary = (case map_of kw ''summary'' of None \<Rightarrow> PyStr [] | Some v \<Rightarrow> v),
                        o_source = (case map_of kw ''source'' of None \<Rightarrow> PyStr [] | Some v \<Rightarrow> v),
                        o_published_at =
                          (case map_of kw ''published_at'' of None \<Rightarrow> PyStr [] | Some v \<Rightarrow> v),
                        o_score = (case map_of kw ''score'' of None \<Rightarrow> PyInt 0 | Some v \<Rightarrow> v),
                        o_extra = (case map_of kw ''extra'' of None \<Rightarrow> PyDict [] | Some v \<Rightarrow> v) \<rparr>)))"

definition to_dict :: "NewsItem_object \<Rightarrow> pydict" where
  "to_dict self =
     [ (''title'', o_title self),
       (''url'', o_url self),
       (''summary'', o_summary self),
       (''source'', o_source self),
       (''published_at'', o_published_at self),
       (''score'', o_score self),
       (''extra'', o_extra self) ]"

subsection \<open>Items with the annotated types\<close>

text \<open>
  The sources of this repository and the loops of the fetcher are modelled on the
  items whose attributes have the types the class annotates: \<open>str\<close> six times over,
  \<open>int\<close> for \<open>score\<close>, \<open>dict\<close> for \<open>extra\<close>. \<open>object_of\<close> is such an item as the
  object above.
\<close>

record NewsItem =
  title :: string
  url :: string
  summary :: string
  source :: string
  published_at :: string
  score :: int
  extra :: pydict

definition object_of :: "NewsItem \<Rightarrow> NewsItem_object" where
  "object_of i =
     \<lparr> o_title = PyStr (title i), o_url = PyStr (url i), o_summary = PyStr (summary i),
       o_source = PyStr (source i), o_published_at = PyStr (published_at i),
       o_score = PyInt (score i), o_extra = PyDict (extra i) \<rparr>"

text \<open>
  \<open>__post_init__\<close> on such an item: an empty string is the falsy \<open>str\<close>.
\<close>

definition post_init_typed :: "NewsItem \<Rightarrow> NewsItem" where
  "post_init_typed self =
     self\<lparr> title := (if title self \<noteq> [] then strip (title self) else []),
           summary := (if summary self \<noteq> [] then strip (summary self) else []) \<rparr>"

text \<open>
  The constructor on arguments of the annotated types; \<open>None\<close> stands for an argument
  the caller leaves out. \<open>typed_kwargs\<close> are the same arguments as keywords.
\<close>

definition new_NewsItem ::
  "string \<Rightarrow> string \<Rightarrow> string option \<Rightarrow> string option \<Rightarrow> string option \<Rightarrow>
   int option \<Rightarrow> pydict option \<Rightarrow> NewsItem" where
  "new_NewsItem t u s src p sc ex =
     post_init_typed \<lparr> title = t, url = u,
                 summary = (case s of None \<Rightarrow> [] | Some v \<Rightarrow> v),
                 source = (case src of None \<Rightarrow> [] | Some v \<Rightarrow> v),
                 published_at = (case p of None \<Rightarrow> [] | Some v \<Rightarrow> v),
                 score = (case sc of None \<Rightarrow> 0 | Some v \<Rightarrow> v),
                 extra = (case ex of None \<Rightarrow> [] | Some v \<Rightarrow> v) \<rparr>"

definition typed_kwargs ::
  "string \<Rightarrow> string \<Rightarrow> string option \<Rightarrow> string option \<Rightarrow> string option \<Rightarrow>
   int option \<Rightarrow> pydict option \<Rightarrow> pydict" where
  "typed_kwargs t u s src p sc ex =
     [(''title'', PyStr t), (''url'', PyStr u)]
     @ (case s of None \<Rightarrow> [] | Some v \<Rightarrow> [(''summary'', PyStr v)])
     @ (case src of None \<Rightarrow> [] | Some v \<Rightarrow> [(''source'', PyStr v)])
     @ (case p of None \<Rightarrow> [] | Some v \<Rightarrow> [(''published_at'', PyStr v)])
     @ (case sc of None \<Rightarrow> [] | Some v \<Rightarrow> [(''score'', PyInt v)])
     @ (case ex of None \<Rightarrow> [] | Some v \<Rightarrow> [(''extra'', PyDict v)])"

section \<open>sources/base.py: the registry\<close>

text \<open>
  A source class: its three class attributes and its \<open>fetch\<close>. Instances carry no state
  of their own, so \<open>cls()\<close> is the class. \<open>fetch\<close> awaits the network; the upstream is
  taken as fixed during one call of the fetcher, and what \<open>await source.fetch(limit)\<close>
  does is then a function of \<open>limit\<close>: it raises (\<open>Inl\<close>) or returns a list (\<open>Inr\<close>).
\<close>

type_synonym fetched = "exn + NewsItem list"

record NewsSource =
  name :: string
  description :: string
  enabled :: bool
  fetch :: "int \<Rightarrow> fetched"

text \<open>\<open>_registry\<close>, a dict from name to class, in insertion order.\<close>

type_synonym registry = "(string \<times> NewsSource) list"

text \<open>\<open>d[k] = v\<close>: an existing key keeps its place, a new key goes to the end.\<close>

fun dict_set :: "('k \<times> 'v) list \<Rightarrow> 'k \<Rightarrow> 'v \<Rightarrow> ('k \<times> 'v) list" where
  "dict_set [] k v = [(k, v)]"
| "dict_set ((k', v') # d) k v = (if k' = k then (k, v) # d else (k', v') # dict_set d k v)"

text \<open>
  \<open>register_source\<close>: \<open>_registry[cls.name] = cls\<close>. The \<open>issubclass\<close> test cannot fail
  on a \<open>NewsSource\<close>.
\<close>

definition register_source :: "NewsSource \<Rightarrow> registry \<Rightarrow> registry" where
  "register_source cls reg = dict_set reg (name cls) cls"

definition get_all_sources :: "registry \<Rightarrow> registry" where
  "get_all_sources reg = reg"

definition get_enabled_sources :: "registry \<Rightarrow> registry" where
  "get_enabled_sources reg = filter (\<lambda>(n, cls). enabled cls) reg"

definition get_source :: "registry \<Rightarrow> string \<Rightarrow> NewsSource option" where
  "get_source reg n = map_of reg n"

section \<open>skills/news_fetcher.py: NewsFetcher\<close>

text \<open>
  What the fetcher prints, one constructor per \<open>print\<close> call: the warning that no source
  is enabled, the failure of a source (its \<open>name\<close> and the exception), and the error that
  a requested source is not registered.
\<close>

datatype printed =
    NoEnabledSources
  | FetchFailed string exn
  | SourceNotFound string

text \<open>
  The deduplication loop of \<open>fetch_all\<close> and \<open>fetch_sources\<close>:
  \<open>if item.url and item.url not in seen_urls\<close> adds the url to \<open>seen_urls\<close> and appends
  the item to \<open>unique_items\<close>.
\<close>

fun dedup_loop :: "NewsItem list \<Rightarrow> string set \<Rightarrow> NewsItem list \<Rightarrow> NewsItem list" where
  "dedup_loop [] seen_urls unique_items = unique_items"
| "dedup_loop (item # rest) seen_urls unique_items =
     (if url item \<noteq> [] \<and> url item \<notin> seen_urls
      then dedup_loop rest (insert (url item) seen_urls) (unique_items @ [item])
      else dedup_loop rest seen_urls unique_items)"

definition dedup :: "NewsItem list \<Rightarrow> NewsItem list" where
  "dedup all_items = dedup_loop all_items {} []"

text \<open>
  The aggregation loop of \<open>fetch_all\<close> over \<open>enumerate(results)\<close>, the results of
  \<open>asyncio.gather(*tasks, return_exceptions=True)\<close> paired with their sources: an
  exception is printed with the source's name and skipped, a list extends \<open>all_items\<close>.
\<close>

fun aggregate ::
  "(NewsSource \<times> fetched) list \<Rightarrow> printed list \<Rightarrow> NewsItem list \<Rightarrow> printed list \<times> NewsItem list" where
  "aggregate [] out all_items = (out, all_items)"
| "aggregate ((src, Inl e) # rs) out all_items =
     aggregate rs (out @ [FetchFailed (name src) e]) all_items"
| "aggregate ((src, Inr xs) # rs) out all_items = aggregate rs out (all_items @ xs)"

text \<open>
  \<open>fetch_all\<close> returns what it printed and its outcome: \<open>Inl\<close> an exception that leaves
  the call, \<open>Inr\<close> the list it returns.
\<close>

definition fetch_all :: "registry \<Rightarrow> int \<Rightarrow> printed list \<times> fetched" where
  "fetch_all reg limit =
     (let sources = get_enabled_sources reg in
      if sources = [] then ([NoEnabledSources], Inr [])
      else
        let source_instances = map snd sources;
            results = map (\<lambda>src. fetch src limit) source_instances;
            (out, all_items) = aggregate (zip source_instances results) [] []
        in (out, Inr (dedup all_items)))"

definition fetch_source :: "registry \<Rightarrow> string \<Rightarrow> int \<Rightarrow> printed list \<times> fetched" where
  "fetch_source reg source_name limit =
     (case get_source reg source_name of
        None \<Rightarrow> ([SourceNotFound source_name], Inr [])
      | Some source_cls \<Rightarrow> ([], fetch source_cls limit))"

text \<open>
  The loop of \<open>fetch_sources\<close> over the gathered results: only a list extends
  \<open>all_items\<close>, an exception is dropped without a word.
\<close>

fun lists_only :: "fetched list \<Rightarrow> NewsItem list \<Rightarrow> NewsItem list" where
  "lists_only [] all_items = all_items"
| "lists_only (Inl e # rs) all_items = lists_only rs all_items"
| "lists_only (Inr xs # rs) all_items = lists_only rs (all_items @ xs)"

definition fetch_sources :: "registry \<Rightarrow> string list \<Rightarrow> int \<Rightarrow> printed list \<times> fetched" where
  "fetch_sources reg source_names limit =
     (let tasks = map (\<lambda>n. fetch_source reg n limit) source_names;
          out = concat (map fst tasks);
          results = map snd tasks
      in (out, Inr (dedup (lists_only results []))))"

section \<open>The source implementations\<close>

text \<open>
  \<open>xs[:limit]\<close>: a negative \<open>limit\<close> counts from the end, and the stop never goes below
  the start (the subtraction on \<open>nat\<close> stops at 0, as Python clamps it).
\<close>

definition slice_to :: "int \<Rightarrow> 'a list \<Rightarrow> 'a list" where
  "slice_to limit xs =
     (if 0 \<le> limit then take (nat limit) xs else take (length xs - nat (- limit)) xs)"

text \<open>
  An HTTP exchange: \<open>session.get\<close> raises, or gives a status and a body; reading the
  body (\<open>await resp.json()\<close>, \<open>await resp.text()\<close>) raises or gives a value.
\<close>

datatype 'a response = Failed exn | Response int "exn + 'a"

text \<open>\<open>str\<close> of an integer, as an f-string formats it.\<close>

fun str_nat :: "nat \<Rightarrow> string" where
  "str_nat n =
     (if n < 10 then [char_of (48 + n)] else str_nat (n div 10) @ [char_of (48 + n mod 10)])"

definition str_int :: "int \<Rightarrow> string" where
  "str_int i = (if i < 0 then CHR ''-'' # str_nat (nat (- i)) else str_nat (nat i))"

fun join :: "string \<Rightarrow> string list \<Rightarrow> string" where
  "join sep [] = []"
| "join sep [p] = p"
| "join sep (p # q # ps) = p @ sep @ join sep (q # ps)"

subsection \<open>sources/hackernews.py\<close>

text \<open>
  The JSON object of one item of the Hacker News API; a key may be missing.
\<close>

record story =
  s_type :: "string option"
  s_time :: "int option"
  s_title :: "string option"
  s_url :: "string option"
  s_score :: "int option"
  s_descendants :: "int option"
  s_by :: "string option"

text \<open>
  The upstream of one fetch: the answer to \<open>topstories.json\<close> and the answer to
  \<open>item/<id>.json\<close> for each id (\<open>None\<close> is the JSON \<open>null\<close>).
  \<open>datetime.fromtimestamp(t).isoformat()\<close> depends on the local time zone and raises on
  a timestamp out of range; it is the parameter \<open>isoformat\<close>.
\<close>

record hn_upstream =
  topstories :: "int list response"
  item_json :: "int \<Rightarrow> story option response"

definition hn_item_url :: "int \<Rightarrow> string" where
  "hn_item_url story_id = ''https://news.ycombinator.com/item?id='' @ str_int story_id"

text \<open>
  \<open>_fetch_story\<close>: every exception inside it is caught and gives \<open>None\<close>, as do a status
  other than 200, an empty answer and an item that is no story.
\<close>

definition fetch_story ::
  "(int \<Rightarrow> exn + string) \<Rightarrow> (int \<Rightarrow> story option response) \<Rightarrow> int \<Rightarrow> NewsItem option" where
  "fetch_story isoformat item story_id =
     (case item story_id of
        Failed e \<Rightarrow> None
      | Response status body \<Rightarrow>
          if status \<noteq> 200 then None
          else (case body of
                  Inl e \<Rightarrow> None
                | Inr None \<Rightarrow> None
                | Inr (Some data) \<Rightarrow>
                    if s_type data \<noteq> Some ''story'' then None
                    else
                      let timestamp = (case s_time data of None \<Rightarrow> 0 | Some t \<Rightarrow> t);
                          points = (case s_score data of None \<Rightarrow> 0 | Some v \<Rightarrow> v);
                          comments = (case s_descendants data of None \<Rightarrow> 0 | Some v \<Rightarrow> v)
                      in (case (if timestamp \<noteq> 0 then isoformat timestamp else Inr []) of
                            Inl e \<Rightarrow> None
                          | Inr published \<Rightarrow>
                              Some (new_NewsItem
                                (case s_title data of None \<Rightarrow> [] | Some v \<Rightarrow> v)
                                (case s_url data of None \<Rightarrow> hn_item_url story_id | Some v \<Rightarrow> v)
                                (Some (''Points: '' @ str_int points @ '' | Comments: '' @ str_int comments))
                                (Some ''HackerNews'')
                                (Some published)
                                (Some points)
                                (Some [ (''id'', PyInt story_id),
                                        (''by'', PyStr (case s_by data of None \<Rightarrow> [] | Some v \<Rightarrow> v)),
                                        (''comments'', PyInt comments),
                                        (''hn_url'', PyStr (hn_item_url story_id)) ])))))"

text \<open>
  \<open>HackerNewsSource.fetch\<close>: an exception of the first request leaves the call; the
  ids are cut to \<open>story_ids[:limit]\<close> and only the results that are a \<open>NewsItem\<close> are
  kept.
\<close>

definition HackerNews_fetch :: "(int \<Rightarrow> exn + string) \<Rightarrow> hn_upstream \<Rightarrow> int \<Rightarrow> fetched" where
  "HackerNews_fetch isoformat up limit =
     (case topstories up of
        Failed e \<Rightarrow> Inl e
      | Response status body \<Rightarrow>
          if status \<noteq> 200 then Inr []
          else (case body of
                  Inl e \<Rightarrow> Inl e
                | Inr story_ids \<Rightarrow>
                    let ids = slice_to limit story_ids;
                        results = map (fetch_story isoformat (item_json up)) ids
                    in Inr (List.map_filter (\<lambda>result. result) results)))"

subsection \<open>sources/rss_feeds.py\<close>

text \<open>
  One entry of a parsed feed; a key may be missing. \<open>e_published_parsed\<close> and
  \<open>e_updated_parsed\<close> are \<open>None\<close> when the key is missing or its value is falsy. A tag
  is its \<open>term\<close>, which is a string or \<open>None\<close>.
\<close>

record entry =
  e_title :: "string option"
  e_link :: "string option"
  e_summary :: "string option"
  e_description :: "string option"
  e_published_parsed :: "int list option"
  e_updated_parsed :: "int list option"
  e_author :: "string option"
  e_tags :: "string option list option"

text \<open>
  The libraries the RSS source calls: \<open>feedparser.parse(content).entries\<close>;
  \<open>BeautifulSoup(summary, "lxml").get_text(strip=True)\<close>, which raises when the parser
  \<open>lxml\<close> is not installed; and \<open>datetime(*t).isoformat()\<close>, which is \<open>None\<close> when the
  constructor raises.
\<close>

record rss_lib =
  feedparser_parse :: "string \<Rightarrow> entry list"
  get_text :: "string \<Rightarrow> exn + string"
  datetime_isoformat :: "int list \<Rightarrow> string option"

text \<open>\<open>[tag.term for tag in tags]\<close>, as the value stored under \<open>tags\<close>.\<close>

definition tag_terms :: "string option list \<Rightarrow> pyval" where
  "tag_terms tags = PyList (map (\<lambda>term. case term of None \<Rightarrow> PyNone | Some v \<Rightarrow> PyStr v) tags)"

text \<open>\<open>_parse_entry\<close>: \<open>Inl\<close> an exception, \<open>Inr None\<close> for an entry without title.\<close>

definition parse_entry :: "rss_lib \<Rightarrow> string \<Rightarrow> entry \<Rightarrow> exn + NewsItem option" where
  "parse_entry lib self_name e =
     (let title = strip (case e_title e of None \<Rightarrow> [] | Some v \<Rightarrow> v) in
      if title = [] then Inr None
      else
        let link = (case e_link e of None \<Rightarrow> [] | Some v \<Rightarrow> v);
            summary = (case e_summary e of
                         Some v \<Rightarrow> v
                       | None \<Rightarrow> (case e_description e of Some v \<Rightarrow> v | None \<Rightarrow> []))
        in (case (if summary \<noteq> [] then get_text lib summary else Inr summary) of
              Inl exc \<Rightarrow> Inl exc
            | Inr txt \<Rightarrow>
                let summary = (if summary \<noteq> [] then take 500 txt else summary);
                    published_at =
                      (case e_published_parsed e of
                         Some t \<Rightarrow> (case datetime_isoformat lib (take 6 t) of Some d \<Rightarrow> d | None \<Rightarrow> [])
                       | None \<Rightarrow>
                           (case e_updated_parsed e of
                              Some t \<Rightarrow>
                                (case datetime_isoformat lib (take 6 t) of Some d \<Rightarrow> d | None \<Rightarrow> [])
                            | None \<Rightarrow> []))
                in Inr (Some (new_NewsItem title link (Some summary) (Some self_name)
                               (Some published_at) (Some 0)
                               (Some [ (''author'', PyStr (case e_author e of None \<Rightarrow> [] | Some v \<Rightarrow> v)),
                                       (''tags'', tag_terms (case e_tags e of None \<Rightarrow> [] | Some tags \<Rightarrow> tags)) ])))))"

text \<open>
  The loop \<open>for entry in feed.entries[:limit]\<close> inside the \<open>try\<close>: an exception ends
  the loop and the items collected so far are returned.
\<close>

fun parse_entries :: "rss_lib \<Rightarrow> string \<Rightarrow> entry list \<Rightarrow> NewsItem list \<Rightarrow> NewsItem list" where
  "parse_entries lib self_name [] items = items"
| "parse_entries lib self_name (e # es) items =
     (case parse_entry lib self_name e of
        Inl exc \<Rightarrow> items
      | Inr None \<Rightarrow> parse_entries lib self_name es items
      | Inr (Some item) \<Rightarrow> parse_entries lib self_name es (items @ [item]))"

text \<open>
  \<open>RSSSourceBase.fetch\<close> of a class with the given \<open>name\<close> and \<open>feed_url\<close>. Every
  exception is caught by the \<open>try\<close>, whose handler prints it; that message is not part
  of the model.
\<close>

definition RSS_fetch :: "rss_lib \<Rightarrow> string \<Rightarrow> string \<Rightarrow> string response \<Rightarrow> int \<Rightarrow> fetched" where
  "RSS_fetch lib self_name feed_url resp limit =
     (if feed_url = [] then Inr []
      else (case resp of
              Failed e \<Rightarrow> Inr []
            | Response status body \<Rightarrow>
                if status \<noteq> 200 then Inr []
                else (case body of
                        Inl e \<Rightarrow> Inr []
                      | Inr content \<Rightarrow>
                          Inr (parse_entries lib self_name
                                 (slice_to limit (feedparser_parse lib content)) []))))"

subsection \<open>sources/github_trending.py\<close>

text \<open>
  One \<open>article.Box-row\<close> element, as the selectors of \<open>_parse_repo_article\<close> see it:
  the \<open>h2 a\<close> link (\<open>None\<close> when there is none, else its \<open>href\<close> if it has one) and the
  stripped texts of the description, language, star count and stars of today.
\<close>

record article =
  a_h2_a :: "string option option"
  a_p :: "string option"
  a_language :: "string option"
  a_stargazers :: "string option"
  a_today :: "string option"

text \<open>
  What the scraper takes from outside: \<open>soup.select("article.Box-row")\<close> on the page,
  \<open>int(s)\<close> (\<open>None\<close> for a \<open>ValueError\<close>) and \<open>datetime.now().isoformat()\<close>.
\<close>

record gh_lib =
  select_articles :: "string \<Rightarrow> article list"
  py_int :: "string \<Rightarrow> int option"
  now_isoformat :: string

text \<open>\<open>s.strip(chars)\<close> and \<open>s.replace(c, new)\<close> for a single character \<open>c\<close>.\<close>

definition strip_chars :: "string \<Rightarrow> string \<Rightarrow> string" where
  "strip_chars chars s =
     rev (dropWhile (\<lambda>c. c \<in> set chars) (rev (dropWhile (\<lambda>c. c \<in> set chars) s)))"

definition replace_char :: "char \<Rightarrow> string \<Rightarrow> string \<Rightarrow> string" where
  "replace_char c new s = concat (map (\<lambda>x. if x = c then new else [x]) s)"

text \<open>
  \<open>_parse_repo_article\<close>. No step of it raises on an article of this model, so the
  \<open>except\<close> of the calling loop is not reached.
\<close>

definition parse_repo_article :: "gh_lib \<Rightarrow> article \<Rightarrow> NewsItem option" where
  "parse_repo_article lib a =
     (case a_h2_a a of
        None \<Rightarrow> None
      | Some href \<Rightarrow>
          let repo_path = strip_chars ''/'' (case href of None \<Rightarrow> [] | Some v \<Rightarrow> v) in
          if repo_path = [] then None
          else
            let repo_url = ''https://github.com/'' @ repo_path;
                repo_name = replace_char (CHR ''/'') '' / '' repo_path;
                description = (case a_p a of None \<Rightarrow> [] | Some v \<Rightarrow> v);
                language = (case a_language a of None \<Rightarrow> [] | Some v \<Rightarrow> v);
                stars = (case a_stargazers a of None \<Rightarrow> ''0'' | Some v \<Rightarrow> replace_char (CHR '','') [] v);
                stars_count = (case py_int lib stars of None \<Rightarrow> 0 | Some n \<Rightarrow> n);
                today_stars = (case a_today a of None \<Rightarrow> [] | Some v \<Rightarrow> v);
                summary_parts =
                  (if language \<noteq> [] then [''Language: '' @ language] else [])
                  @ [''Stars: '' @ stars]
                  @ (if today_stars \<noteq> [] then [''('' @ today_stars @ '')''] else [])
                  @ (if description \<noteq> [] then [''- '' @ description] else [])
            in Some (new_NewsItem repo_name repo_url (Some (join '' '' summary_parts))
                       (Some ''GitHubTrending'') (Some (now_isoformat lib)) (Some stars_count)
                       (Some [ (''language'', PyStr language),
                               (''stars'', PyInt stars_count),
                               (''today_stars'', PyStr today_stars),
                               (''description'', PyStr description) ])))"

text \<open>\<open>_parse_trending_page\<close>: the loop over \<open>articles[:limit]\<close>.\<close>

fun parse_articles :: "gh_lib \<Rightarrow> article list \<Rightarrow> NewsItem list \<Rightarrow> NewsItem list" where
  "parse_articles lib [] items = items"
| "parse_articles lib (a # rest) items =
     (case parse_repo_article lib a of
        None \<Rightarrow> parse_articles lib rest items
      | Some item \<Rightarrow> parse_articles lib rest (items @ [item]))"

definition parse_trending_page :: "gh_lib \<Rightarrow> string \<Rightarrow> int \<Rightarrow> NewsItem list" where
  "parse_trending_page lib html limit =
     parse_articles lib (slice_to limit (select_articles lib html)) []"

text \<open>\<open>GitHubTrendingSource.fetch\<close>: an exception of the request leaves the call.\<close>

definition GitHubTrending_fetch :: "gh_lib \<Rightarrow> string response \<Rightarrow> int \<Rightarrow> fetched" where
  "GitHubTrending_fetch lib resp limit =
     (case resp of
        Failed e \<Rightarrow> Inl e
      | Response status body \<Rightarrow>
          if status \<noteq> 200 then Inr []
          else (case body of
                  Inl e \<Rightarrow> Inl e
                | Inr html \<Rightarrow> Inr (parse_trending_page lib html limit)))"

section \<open>Notions used in the statements\<close>

text \<open>What one gathered result adds to \<open>all_items\<close>: nothing when it is an exception.\<close>

definition contributed :: "fetched \<Rightarrow> NewsItem list" where
  "contributed r = (case r of Inl e \<Rightarrow> [] | Inr xs \<Rightarrow> xs)"

text \<open>What \<open>fetch_all\<close> prints for one gathered result.\<close>

definition reported :: "NewsSource \<Rightarrow> fetched \<Rightarrow> printed list" where
  "reported src r = (case r of Inl e \<Rightarrow> [FetchFailed (name src) e] | Inr xs \<Rightarrow> [])"

text \<open>
  Position \<open>i\<close> of \<open>xs\<close> holds a non-empty url that is neither in \<open>S\<close> nor at an earlier
  position.
\<close>

definition kept :: "string set \<Rightarrow> NewsItem list \<Rightarrow> nat \<Rightarrow> bool" where
  "kept S xs i =
     (url (xs ! i) \<noteq> [] \<and> url (xs ! i) \<notin> S \<and> (\<forall>j<i. url (xs ! j) \<noteq> url (xs ! i)))"

subsection \<open>Sample data\<close>

definition sample_item :: "string \<Rightarrow> string \<Rightarrow> string \<Rightarrow> NewsItem" where
  "sample_item t u src = new_NewsItem t u None (Some src) None None None"

definition sample_source :: "string \<Rightarrow> bool \<Rightarrow> fetched \<Rightarrow> NewsSource" where
  "sample_source n en r = \<lparr> name = n, description = [], enabled = en, fetch = (\<lambda>limit. r) \<rparr>"

text \<open>
  The registry of the scenario of the specification: \<open>A\<close> and \<open>B\<close> enabled and sharing
  the url \<open>u2\<close>, \<open>C\<close> disabled; and a registry with a source \<open>F\<close> whose fetch raises.
\<close>

definition source_A :: NewsSource where
  "source_A = sample_source ''A'' True (Inr [sample_item ''a1'' ''u1'' ''A'', sample_item ''a2'' ''u2'' ''A''])"

definition source_B :: NewsSource where
  "source_B = sample_source ''B'' True (Inr [sample_item ''b2'' ''u2'' ''B'', sample_item ''b3'' ''u3'' ''B''])"

definition source_C :: NewsSource where
  "source_C = sample_source ''C'' False (Inr [sample_item ''c4'' ''u4'' ''C''])"

definition source_F :: NewsSource where
  "source_F = sample_source ''F'' True (Inl (Exception ''timeout''))"

definition source_E :: NewsSource where
  "source_E = sample_source ''E'' True (Inr [sample_item ''e1'' [] ''E''])"

definition scenario :: registry where
  "scenario = register_source source_C (register_source source_B (register_source source_A []))"

definition failing :: registry where
  "failing = register_source source_B (register_source source_F (register_source source_A []))"

text \<open>A registry of two enabled sources: \<open>E\<close> returns one item without url, \<open>F\<close> raises.\<close>

definition unlinked :: registry where
  "unlinked = register_source source_F (register_source source_E [])"

text \<open>
  An upstream of Hacker News with three top stories, each answered by the same story,
  and a feed and a trending page with three entries each.
\<close>

definition sample_story :: story where
  "sample_story = \<lparr> s_type = Some ''story'', s_time = None, s_title = Some ''t'', s_url = None,
                     s_score = None, s_descendants = None, s_by = None \<rparr>"

definition sample_item_json :: "int \<Rightarrow> story option response" where
  "sample_item_json story_id = Response 200 (Inr (Some sample_story))"

definition sample_hn :: hn_upstream where
  "sample_hn = \<lparr> topstories = Response 200 (Inr [1, 2, 3]), item_json = sample_item_json \<rparr>"

definition sample_isoformat :: "int \<Rightarrow> exn + string" where
  "sample_isoformat t = Inr []"

definition sample_entry :: entry where
  "sample_entry = \<lparr> e_title = Some ''t'', e_link = Some ''l'', e_summary = None,
                     e_description = None, e_published_parsed = None, e_updated_parsed = None,
                     e_author = None, e_tags = None \<rparr>"

definition sample_feed :: "string \<Rightarrow> entry list" where
  "sample_feed content = [sample_entry, sample_entry, sample_entry]"

definition sample_datetime :: "int list \<Rightarrow> string option" where
  "sample_datetime t = None"

definition sample_get_text :: "string \<Rightarrow> exn + string" where
  "sample_get_text s = Inr (strip s)"

definition sample_rss_lib :: rss_lib where
  "sample_rss_lib = \<lparr> feedparser_parse = sample_feed, get_text = sample_get_text,
                       datetime_isoformat = sample_datetime \<rparr>"

definition sample_article :: article where
  "sample_article = \<lparr> a_h2_a = Some (Some ''/o/r''), a_p = None, a_language = None,
                       a_stargazers = None, a_today = None \<rparr>"

definition sample_page :: "string \<Rightarrow> article list" where
  "sample_page html = [sample_article, sample_article, sample_article]"

definition sample_py_int :: "string \<Rightarrow> int option" where
  "sample_py_int s = (if s = ''0'' then Some 0 else None)"

definition sample_gh_lib :: gh_lib where
  "sample_gh_lib = \<lparr> select_articles = sample_page, py_int = sample_py_int,
                      now_isoformat = ''2024-01-01T00:00:00'' \<rparr>"

section \<open>Deduplication\<close>

lemma dedup_loop_acc: "dedup_loop xs S acc = acc @ dedup_loop xs S []"
proof (induction xs arbitrary: S acc)
  case Nil
  then show ?case by simp
next
  case (Cons x xs)
  show ?case
  proof (cases "url x \<noteq> [] \<and> url x \<notin> S")
    case True
    have "dedup_loop (x # xs) S acc = (acc @ [x]) @ dedup_loop xs (insert (url x) S) []"
      using True Cons.IH [of "insert (url x) S" "acc @ [x]"] by simp
    moreover have "dedup_loop (x # xs) S [] = [x] @ dedup_loop xs (insert (url x) S) []"
      using True Cons.IH [of "insert (url x) S" "[x]"] by simp
    ultimately show ?thesis by simp
  next
    case False
    then show ?thesis using Cons.IH [of S acc] by auto
  qed
qed

lemma dedup_loop_Cons:
  "dedup_loop (x # xs) S [] =
     (if url x \<noteq> [] \<and> url x \<notin> S then x # dedup_loop xs (insert (url x) S) []
      else dedup_loop xs S [])"
  using dedup_loop_acc [of xs "insert (url x) S" "[x]"] by simp

lemma upt_Suc_shift: "[0..<Suc n] = 0 # map Suc [0..<n]"
  by (simp add: upt_conv_Cons map_Suc_upt del: upt_Suc)

lemma all_less_Suc_shift: "(\<forall>j<Suc i. P j) = (P 0 \<and> (\<forall>j<i. P (Suc j)))"
  by (auto simp: less_Suc_eq_0_disj)

lemma kept_Suc_new:
  "url x \<noteq> [] \<and> url x \<notin> S \<Longrightarrow> kept S (x # xs) (Suc i) = kept (insert (url x) S) xs i"
  by (auto simp: kept_def all_less_Suc_shift)

lemma kept_Suc_old:
  "\<not> (url x \<noteq> [] \<and> url x \<notin> S) \<Longrightarrow> kept S (x # xs) (Suc i) = kept S xs i"
  by (auto simp: kept_def all_less_Suc_shift)

lemma kept_0: "kept S (x # xs) 0 = (url x \<noteq> [] \<and> url x \<notin> S)"
  by (simp add: kept_def)

lemma dedup_loop_index:
  "dedup_loop xs S [] = map (\<lambda>i. xs ! i) (filter (kept S xs) [0..<length xs])"
proof (induction xs arbitrary: S)
  case Nil
  then show ?case by simp
next
  case (Cons x xs)
  have shift: "[0..<length (x # xs)] = 0 # map Suc [0..<length xs]"
    using upt_Suc_shift [of "length xs"] by simp
  show ?case
  proof (cases "url x \<noteq> [] \<and> url x \<notin> S")
    case True
    have k0: "kept S (x # xs) 0" using True by (simp add: kept_0)
    have kS: "(\<lambda>i. kept S (x # xs) (Suc i)) = kept (insert (url x) S) xs"
      using kept_Suc_new [OF True] by (simp add: fun_eq_iff)
    have "dedup_loop (x # xs) S [] = x # dedup_loop xs (insert (url x) S) []"
      using True by (simp add: dedup_loop_Cons del: dedup_loop.simps)
    then show ?thesis
      by (simp only: shift Cons.IH) (simp add: k0 filter_map comp_def kS)
  next
    case False
    have k0: "\<not> kept S (x # xs) 0" using False by (simp add: kept_0)
    have kS: "(\<lambda>i. kept S (x # xs) (Suc i)) = kept S xs"
      using kept_Suc_old [OF False] by (simp add: fun_eq_iff)
    have "dedup_loop (x # xs) S [] = dedup_loop xs S []"
      using False by (auto simp add: dedup_loop_Cons simp del: dedup_loop.simps)
    then show ?thesis
      by (simp only: shift Cons.IH) (simp add: k0 filter_map comp_def kS)
  qed
qed

text \<open>
  C1 (amended): the deduplication step of \<open>fetch_all\<close> and \<open>fetch_sources\<close> keeps, in
  scan order, exactly the items at the positions that hold a non-empty url not seen at an
  earlier position: the first occurrence of each non-empty url. An item whose url is
  empty is at no such position and is dropped.
\<close>

theorem dedup_first_occurrences:
  "dedup xs = map (\<lambda>i. xs ! i)
     (filter (\<lambda>i. url (xs ! i) \<noteq> [] \<and> (\<forall>j<i. url (xs ! j) \<noteq> url (xs ! i))) [0..<length xs])"
proof -
  have "kept {} xs = (\<lambda>i. url (xs ! i) \<noteq> [] \<and> (\<forall>j<i. url (xs ! j) \<noteq> url (xs ! i)))"
    by (simp add: kept_def fun_eq_iff)
  then show ?thesis
    using dedup_loop_index [of xs "{}"] by (simp add: dedup_def)
qed


lemma dedup_loop_urls:
  "i \<in> set (dedup_loop xs S []) \<Longrightarrow> url i \<noteq> [] \<and> url i \<notin> S \<and> i \<in> set xs"
proof (induction xs arbitrary: S)
  case Nil
  then show ?case by simp
next
  case (Cons x xs)
  show ?case
  proof (cases "url x \<noteq> [] \<and> url x \<notin> S")
    case True
    then have "i = x \<or> i \<in> set (dedup_loop xs (insert (url x) S) [])"
      using Cons.prems by (simp add: dedup_loop_Cons del: dedup_loop.simps)
    then show ?thesis using True Cons.IH [of "insert (url x) S"] by auto
  next
    case False
    then have "i \<in> set (dedup_loop xs S [])"
      using Cons.prems by (auto simp add: dedup_loop_Cons simp del: dedup_loop.simps)
    then show ?thesis using Cons.IH [of S] by auto
  qed
qed

lemma dedup_loop_distinct: "distinct (map url (dedup_loop xs S []))"
proof (induction xs arbitrary: S)
  case Nil
  then show ?case by simp
next
  case (Cons x xs)
  show ?case
  proof (cases "url x \<noteq> [] \<and> url x \<notin> S")
    case True
    have "url x \<notin> url ` set (dedup_loop xs (insert (url x) S) [])"
    proof
      assume "url x \<in> url ` set (dedup_loop xs (insert (url x) S) [])"
      then obtain i where "i \<in> set (dedup_loop xs (insert (url x) S) [])" "url i = url x"
        by force
      then show False using dedup_loop_urls [of i xs "insert (url x) S"] by simp
    qed
    then show ?thesis
      using True Cons.IH [of "insert (url x) S"]
      by (simp add: dedup_loop_Cons del: dedup_loop.simps)
  next
    case False
    then show ?thesis
      using Cons.IH [of S] by (auto simp add: dedup_loop_Cons simp del: dedup_loop.simps)
  qed
qed

lemma dedup_loop_fixed:
  "distinct (map url ys) \<Longrightarrow> \<forall>i \<in> set ys. url i \<noteq> [] \<and> url i \<notin> S \<Longrightarrow> dedup_loop ys S [] = ys"
proof (induction ys arbitrary: S)
  case Nil
  then show ?case by simp
next
  case (Cons y ys)
  have new: "url y \<noteq> [] \<and> url y \<notin> S" using Cons.prems(2) by simp
  have "url y \<notin> url ` set ys" using Cons.prems(1) by simp
  then have "\<forall>i \<in> set ys. url i \<noteq> url y" by (metis imageI)
  then have "\<forall>i \<in> set ys. url i \<noteq> [] \<and> url i \<notin> insert (url y) S"
    using Cons.prems(2) by simp
  then have "dedup_loop ys (insert (url y) S) [] = ys"
    using Cons.IH [of "insert (url y) S"] Cons.prems(1) by simp
  then show ?case
    using new by (simp add: dedup_loop_Cons del: dedup_loop.simps)
qed

text \<open>
  C1 as stated fails: a list of one item with an empty url is deduplicated to the empty
  list, so the item with the empty url is not kept.
\<close>

theorem dedup_drops_empty_url:
  "url (sample_item ''a'' [] ''A'') = [] \<and>
   sample_item ''a'' [] ''A'' \<in> set [sample_item ''a'' [] ''A''] \<and>
   sample_item ''a'' [] ''A'' \<notin> set (dedup [sample_item ''a'' [] ''A''])"
  by (simp add: dedup_def sample_item_def new_NewsItem_def post_init_typed_def)

text \<open>The theorem of C1 at a list of four items, one of them without url.\<close>

theorem dedup_first_occurrences_witness:
  "dedup [sample_item ''a'' ''u1'' ''A'', sample_item ''b'' [] ''A'',
          sample_item ''c'' ''u1'' ''B'', sample_item ''d'' ''u2'' ''B'']
   = [sample_item ''a'' ''u1'' ''A'', sample_item ''d'' ''u2'' ''B'']"
  using dedup_first_occurrences [of "[sample_item ''a'' ''u1'' ''A'', sample_item ''b'' [] ''A'',
          sample_item ''c'' ''u1'' ''B'', sample_item ''d'' ''u2'' ''B'']"]
  by (simp add: sample_item_def new_NewsItem_def post_init_typed_def upt_rec All_less_Suc)

text \<open>
  C8: applying the URL deduplication twice gives the same list as applying it once.
\<close>

theorem dedup_idempotent: "dedup (dedup xs) = dedup xs"
  unfolding dedup_def
  by (rule dedup_loop_fixed) (use dedup_loop_distinct dedup_loop_urls in blast)+


section \<open>The item model\<close>

lemma rstrip_hd:
  "s = [] \<or> \<not> isspace (hd s) \<Longrightarrow> rstrip s = [] \<or> \<not> isspace (hd (rstrip s))"
proof (induction s rule: rev_induct)
  case Nil
  then show ?case by (simp add: rstrip_def)
next
  case (snoc c s)
  show ?case
  proof (cases "isspace c")
    case True
    have "rstrip (s @ [c]) = rstrip s" using True by (simp add: rstrip_def)
    moreover have "s = [] \<or> \<not> isspace (hd s)"
      using snoc.prems True by (cases s) auto
    ultimately show ?thesis using snoc.IH by simp
  next
    case False
    have "rstrip (s @ [c]) = s @ [c]" using False by (simp add: rstrip_def)
    then show ?thesis using snoc.prems by simp
  qed
qed

lemma lstrip_hd: "lstrip s = [] \<or> \<not> isspace (hd (lstrip s))"
  unfolding lstrip_def using hd_dropWhile [of isspace s] by blast

lemma lstrip_fixed: "s = [] \<or> \<not> isspace (hd s) \<Longrightarrow> lstrip s = s"
  by (cases s) (auto simp: lstrip_def)

lemma rstrip_last: "rstrip s = [] \<or> \<not> isspace (last (rstrip s))"
proof -
  have "dropWhile isspace (rev s) = [] \<or> \<not> isspace (hd (dropWhile isspace (rev s)))"
    using hd_dropWhile [of isspace "rev s"] by blast
  then show ?thesis
    by (auto simp: rstrip_def last_rev)
qed

lemma rstrip_idem: "rstrip (rstrip s) = rstrip s"
  by (simp add: rstrip_def)

lemma strip_hd: "strip s = [] \<or> \<not> isspace (hd (strip s))"
  unfolding strip_def by (rule rstrip_hd) (rule lstrip_hd)

lemma strip_last: "strip s = [] \<or> \<not> isspace (last (strip s))"
  unfolding strip_def by (rule rstrip_last)

lemma strip_idem: "strip (strip s) = strip s"
proof -
  have "lstrip (strip s) = strip s"
    by (rule lstrip_fixed) (rule strip_hd)
  then have "strip (strip s) = rstrip (strip s)" by (simp add: strip_def)
  then show ?thesis by (simp add: strip_def rstrip_idem)
qed

lemma trimmed_iff: "trimmed s = (s = [] \<or> (\<not> isspace (hd s) \<and> \<not> isspace (last s)))"
  by (cases s) auto

lemma trimmed_strip: "trimmed (strip s)"
  using strip_hd [of s] strip_last [of s] by (auto simp: trimmed_iff)

lemma strip_Nil: "strip [] = []"
  by (simp add: strip_def lstrip_def rstrip_def)

lemma strip_fixed: "trimmed t \<Longrightarrow> strip t = t"
proof -
  assume tr: "trimmed t"
  show ?thesis
  proof (cases t)
    case Nil
    then show ?thesis by (simp add: strip_Nil)
  next
    case (Cons c cs)
    then have h: "\<not> isspace (hd t)" and l: "\<not> isspace (last t)" using tr by simp_all
    have "lstrip t = t" using h Cons by (simp add: lstrip_def)
    moreover have "rstrip t = t"
    proof -
      obtain a as where r: "rev t = a # as" using Cons by (cases "rev t") simp_all
      have "hd (rev t) = last t" using Cons by (simp add: hd_rev)
      then have "\<not> isspace a" using l r by simp
      then have "dropWhile isspace (rev t) = rev t" using r by simp
      then show ?thesis by (simp add: rstrip_def)
    qed
    ultimately show ?thesis by (simp add: strip_def)
  qed
qed

lemma strip_or_empty_str:
  "strip_or_empty x = Inr y \<Longrightarrow> \<exists>t. y = PyStr t \<and> trimmed t"
  by (cases x) (auto simp: strip_or_empty_def trimmed_strip split: if_splits)

lemma strip_or_empty_fixed: "trimmed t \<Longrightarrow> strip_or_empty (PyStr t) = Inr (PyStr t)"
  by (simp add: strip_or_empty_def strip_fixed)

lemma strip_or_empty_typed:
  "strip_or_empty (PyStr t) = Inr (PyStr (if t \<noteq> [] then strip t else []))"
  by (simp add: strip_or_empty_def)

lemma post_init_Inr:
  "post_init self = Inr item \<Longrightarrow>
   \<exists>t s. strip_or_empty (o_title self) = Inr t \<and> strip_or_empty (o_summary self) = Inr s \<and>
         item = self\<lparr> o_title := t, o_summary := s \<rparr>"
  by (auto simp: post_init_def split: sum.splits)

lemma NewsItem_kwargs_Inr:
  assumes "NewsItem_kwargs kw = Inr item"
  shows "\<exists>t u. map_of kw ''title'' = Some t \<and> map_of kw ''url'' = Some u \<and>
           post_init
             \<lparr> o_title = t, o_url = u,
               o_summary = (case map_of kw ''summary'' of None \<Rightarrow> PyStr [] | Some v \<Rightarrow> v),
               o_source = (case map_of kw ''source'' of None \<Rightarrow> PyStr [] | Some v \<Rightarrow> v),
               o_published_at = (case map_of kw ''published_at'' of None \<Rightarrow> PyStr [] | Some v \<Rightarrow> v),
               o_score = (case map_of kw ''score'' of None \<Rightarrow> PyInt 0 | Some v \<Rightarrow> v),
               o_extra = (case map_of kw ''extra'' of None \<Rightarrow> PyDict [] | Some v \<Rightarrow> v) \<rparr> = Inr item"
  using assms by (auto simp: NewsItem_kwargs_def split: list.splits option.splits)

lemma default_not_None:
  "PyNone \<notin> snd ` set kw \<Longrightarrow> d \<noteq> PyNone \<Longrightarrow>
   (case map_of kw k of None \<Rightarrow> d | Some v \<Rightarrow> v) \<noteq> PyNone"
proof (cases "map_of kw k")
  case None
  assume "d \<noteq> PyNone"
  then show ?thesis using None by simp
next
  case (Some v)
  assume "PyNone \<notin> snd ` set kw"
  moreover have "(k, v) \<in> set kw" using Some by (rule map_of_SomeD)
  ultimately have "v \<noteq> PyNone" by force
  then show ?thesis using Some by simp
qed

text \<open>
  C9 (amended): a constructed \<open>NewsItem\<close> has all seven attributes. \<open>title\<close> and
  \<open>summary\<close> are strings that neither start nor end with whitespace: the stripped
  argument, or the empty string for a falsy argument (\<open>None\<close> included, and a summary
  left out). \<open>url\<close> holds its argument as given; \<open>source\<close>, \<open>published_at\<close>, \<open>score\<close>
  and \<open>extra\<close> hold the argument as given or, when it is left out, the default \<open>""\<close>,
  \<open>""\<close>, \<open>0\<close>, the empty dict. So none of them is null when no argument is \<open>None\<close>.
\<close>

theorem NewsItem_invariant:
  assumes "NewsItem_kwargs kw = Inr item"
  shows "(\<exists>t. o_title item = PyStr t \<and> trimmed t) \<and>
         (\<exists>v. map_of kw ''title'' = Some v \<and> strip_or_empty v = Inr (o_title item)) \<and>
         (\<exists>s. o_summary item = PyStr s \<and> trimmed s) \<and>
         strip_or_empty (case map_of kw ''summary'' of None \<Rightarrow> PyStr [] | Some v \<Rightarrow> v)
           = Inr (o_summary item) \<and>
         map_of kw ''url'' = Some (o_url item) \<and>
         o_source item = (case map_of kw ''source'' of None \<Rightarrow> PyStr [] | Some v \<Rightarrow> v) \<and>
         o_published_at item = (case map_of kw ''published_at'' of None \<Rightarrow> PyStr [] | Some v \<Rightarrow> v) \<and>
         o_score item = (case map_of kw ''score'' of None \<Rightarrow> PyInt 0 | Some v \<Rightarrow> v) \<and>
         o_extra item = (case map_of kw ''extra'' of None \<Rightarrow> PyDict [] | Some v \<Rightarrow> v) \<and>
         (PyNone \<notin> snd ` set kw \<longrightarrow>
            o_url item \<noteq> PyNone \<and> o_source item \<noteq> PyNone \<and> o_published_at item \<noteq> PyNone \<and>
            o_score item \<noteq> PyNone \<and> o_extra item \<noteq> PyNone)"
proof -
  let ?sm = "case map_of kw ''summary'' of None \<Rightarrow> PyStr [] | Some v \<Rightarrow> v"
  let ?src = "case map_of kw ''source'' of None \<Rightarrow> PyStr [] | Some v \<Rightarrow> v"
  let ?pub = "case map_of kw ''published_at'' of None \<Rightarrow> PyStr [] | Some v \<Rightarrow> v"
  let ?sc = "case map_of kw ''score'' of None \<Rightarrow> PyInt 0 | Some v \<Rightarrow> v"
  let ?ex = "case map_of kw ''extra'' of None \<Rightarrow> PyDict [] | Some v \<Rightarrow> v"
  obtain tv uv where tv: "map_of kw ''title'' = Some tv" and uv: "map_of kw ''url'' = Some uv"
    and pi: "post_init \<lparr> o_title = tv, o_url = uv, o_summary = ?sm, o_source = ?src,
               o_published_at = ?pub, o_score = ?sc, o_extra = ?ex \<rparr> = Inr item"
    using NewsItem_kwargs_Inr [OF assms] by blast
  obtain t s where t: "strip_or_empty tv = Inr t" and s: "strip_or_empty ?sm = Inr s"
    and item: "item = \<lparr> o_title = t, o_url = uv, o_summary = s, o_source = ?src,
               o_published_at = ?pub, o_score = ?sc, o_extra = ?ex \<rparr>"
    using post_init_Inr [OF pi] by auto
  have title: "\<exists>t'. o_title item = PyStr t' \<and> trimmed t'"
    using strip_or_empty_str [OF t] item by simp
  have summary: "\<exists>s'. o_summary item = PyStr s' \<and> trimmed s'"
    using strip_or_empty_str [OF s] item by simp
  have given: "\<exists>v. map_of kw ''title'' = Some v \<and> strip_or_empty v = Inr (o_title item)"
    using tv t item by simp
  have stored: "strip_or_empty ?sm = Inr (o_summary item) \<and> map_of kw ''url'' = Some (o_url item) \<and>
      o_source item = ?src \<and> o_published_at item = ?pub \<and> o_score item = ?sc \<and> o_extra item = ?ex"
    using s uv item by simp
  have nonnull: "o_url item \<noteq> PyNone \<and> o_source item \<noteq> PyNone \<and> o_published_at item \<noteq> PyNone \<and>
      o_score item \<noteq> PyNone \<and> o_extra item \<noteq> PyNone" if no: "PyNone \<notin> snd ` set kw"
  proof -
    have "(''url'', uv) \<in> set kw" using uv by (rule map_of_SomeD)
    then have "uv \<noteq> PyNone" using no by force
    then show ?thesis
      using item default_not_None [OF no, of "PyStr []"] default_not_None [OF no, of "PyInt 0"]
        default_not_None [OF no, of "PyDict []"]
      by simp
  qed
  show ?thesis using title given summary stored nonnull by blast
qed

text \<open>
  C9 as stated fails: the constructor stores a \<open>None\<close> given for \<open>url\<close>, and the
  attribute is null after construction.
\<close>

theorem NewsItem_null_url:
  "NewsItem_kwargs [(''title'', PyStr ''t''), (''url'', PyNone)] =
     Inr \<lparr> o_title = PyStr ''t'', o_url = PyNone, o_summary = PyStr [], o_source = PyStr [],
           o_published_at = PyStr [], o_score = PyInt 0, o_extra = PyDict [] \<rparr>"
  by (simp add: NewsItem_kwargs_def field_names_def post_init_def strip_or_empty_def
        strip_def lstrip_def rstrip_def isspace_def)

text \<open>
  The theorem of C9 at a title with spaces around it, a url, a score and no other
  argument.
\<close>

theorem NewsItem_invariant_witness:
  "NewsItem_kwargs [(''title'', PyStr '' x ''), (''url'', PyStr ''u''), (''score'', PyInt 3)] =
     Inr \<lparr> o_title = PyStr ''x'', o_url = PyStr ''u'', o_summary = PyStr [], o_source = PyStr [],
           o_published_at = PyStr [], o_score = PyInt 3, o_extra = PyDict [] \<rparr> \<and>
   trimmed ''x'' \<and>
   PyNone \<notin> snd ` set [(''title'', PyStr '' x ''), (''url'', PyStr ''u''), (''score'', PyInt 3)]"
proof -
  have h: "NewsItem_kwargs [(''title'', PyStr '' x ''), (''url'', PyStr ''u''), (''score'', PyInt 3)] =
     Inr \<lparr> o_title = PyStr ''x'', o_url = PyStr ''u'', o_summary = PyStr [], o_source = PyStr [],
           o_published_at = PyStr [], o_score = PyInt 3, o_extra = PyDict [] \<rparr>"
    by (simp add: NewsItem_kwargs_def field_names_def post_init_def strip_or_empty_def
          strip_def lstrip_def rstrip_def isspace_def)
  show ?thesis
    using NewsItem_invariant [OF h] h by simp
qed

text \<open>
  The constructor on arguments of the annotated types is \<open>new_NewsItem\<close>.
\<close>

lemma new_NewsItem_object:
  "NewsItem_kwargs (typed_kwargs t u s src p sc ex) = Inr (object_of (new_NewsItem t u s src p sc ex))"
  by (cases s; cases src; cases p; cases sc; cases ex)
     (simp_all add: NewsItem_kwargs_def typed_kwargs_def field_names_def post_init_def
        strip_or_empty_typed object_of_def new_NewsItem_def post_init_typed_def)

lemma kwargs_to_dict: "NewsItem_kwargs (to_dict item) = post_init item"
  by (cases item) (simp add: NewsItem_kwargs_def to_dict_def field_names_def)

text \<open>
  C6: for every constructed \<open>NewsItem\<close>, building a \<open>NewsItem\<close> from the keywords of
  its \<open>to_dict\<close> gives back the item, equal in all seven attributes.
\<close>

theorem to_dict_round_trip:
  assumes "NewsItem_kwargs kw = Inr item"
  shows "NewsItem_kwargs (to_dict item) = Inr item"
proof -
  obtain self t s where t: "strip_or_empty (o_title self) = Inr t"
    and s: "strip_or_empty (o_summary self) = Inr s"
    and item: "item = self\<lparr> o_title := t, o_summary := s \<rparr>"
    using NewsItem_kwargs_Inr [OF assms] post_init_Inr by blast
  obtain t' where t': "t = PyStr t'" "trimmed t'" using strip_or_empty_str [OF t] by blast
  obtain s' where s': "s = PyStr s'" "trimmed s'" using strip_or_empty_str [OF s] by blast
  have "post_init item = Inr item"
    using item t' s' by (simp add: post_init_def strip_or_empty_fixed)
  then show ?thesis by (simp add: kwargs_to_dict)
qed

text \<open>
  The theorem of C6 at an item built with spaces around its title and \<open>None\<close> as url.
\<close>

theorem to_dict_round_trip_witness:
  "NewsItem_kwargs [(''title'', PyStr '' x ''), (''url'', PyNone)] =
     Inr \<lparr> o_title = PyStr ''x'', o_url = PyNone, o_summary = PyStr [], o_source = PyStr [],
           o_published_at = PyStr [], o_score = PyInt 0, o_extra = PyDict [] \<rparr> \<and>
   NewsItem_kwargs (to_dict \<lparr> o_title = PyStr ''x'', o_url = PyNone, o_summary = PyStr [],
           o_source = PyStr [], o_published_at = PyStr [], o_score = PyInt 0, o_extra = PyDict [] \<rparr>) =
     Inr \<lparr> o_title = PyStr ''x'', o_url = PyNone, o_summary = PyStr [], o_source = PyStr [],
           o_published_at = PyStr [], o_score = PyInt 0, o_extra = PyDict [] \<rparr>"
proof -
  have h: "NewsItem_kwargs [(''title'', PyStr '' x ''), (''url'', PyNone)] =
     Inr \<lparr> o_title = PyStr ''x'', o_url = PyNone, o_summary = PyStr [], o_source = PyStr [],
           o_published_at = PyStr [], o_score = PyInt 0, o_extra = PyDict [] \<rparr>"
    by (simp add: NewsItem_kwargs_def field_names_def post_init_def strip_or_empty_def
          strip_def lstrip_def rstrip_def isspace_def)
  show ?thesis
    using to_dict_round_trip [OF h] h by simp
qed

text \<open>
  In particular an item built from arguments of the annotated types is given back.
\<close>

lemma typed_round_trip:
  "NewsItem_kwargs (to_dict (object_of (new_NewsItem t u s src p sc ex))) =
     Inr (object_of (new_NewsItem t u s src p sc ex))"
proof -
  let ?item = "object_of (new_NewsItem t u s src p sc ex)"
  have "trimmed (title (new_NewsItem t u s src p sc ex))"
    by (simp add: new_NewsItem_def post_init_typed_def trimmed_strip)
  moreover have "trimmed (summary (new_NewsItem t u s src p sc ex))"
    by (simp add: new_NewsItem_def post_init_typed_def trimmed_strip)
  ultimately have "post_init ?item = Inr ?item"
    by (simp add: post_init_def object_of_def strip_or_empty_fixed)
  then show ?thesis by (simp add: kwargs_to_dict)
qed

section \<open>The fetcher\<close>

lemma aggregate_eq:
  "aggregate rs out items =
     (out @ concat (map (\<lambda>(src, r). reported src r) rs),
      items @ concat (map (\<lambda>(src, r). contributed r) rs))"
  by (induction rs out items rule: aggregate.induct) (simp_all add: contributed_def reported_def)

lemma lists_only_eq: "lists_only rs items = items @ concat (map contributed rs)"
  by (induction rs items rule: lists_only.induct) (simp_all add: contributed_def)

lemma zip_map_self: "zip (map f xs) (map g xs) = map (\<lambda>x. (f x, g x)) xs"
  by (induction xs) simp_all

lemma fetch_all_items:
  "get_enabled_sources reg \<noteq> [] \<Longrightarrow>
   snd (fetch_all reg limit) =
     Inr (dedup (concat (map (\<lambda>(n, src). contributed (fetch src limit)) (get_enabled_sources reg))))"
  by (simp add: fetch_all_def Let_def aggregate_eq zip_map_self comp_def split_def)

lemma fetch_all_printed:
  "get_enabled_sources reg \<noteq> [] \<Longrightarrow>
   fst (fetch_all reg limit) =
     concat (map (\<lambda>(n, src). reported src (fetch src limit)) (get_enabled_sources reg))"
  by (simp add: fetch_all_def Let_def aggregate_eq zip_map_self comp_def split_def)

text \<open>
  C2 (amended): when the fetch of the enabled source at position \<open>k\<close> raises,
  \<open>fetch_all\<close> raises nothing and returns what its deduplication step makes of the
  items the other enabled sources contribute, in registry order: the first occurrence of
  each non-empty url, the items without url dropped.
\<close>

theorem fetch_all_failure_isolation:
  assumes "k < length (get_enabled_sources reg)"
      and "fetch (snd (get_enabled_sources reg ! k)) limit = Inl e"
  shows "snd (fetch_all reg limit) =
           Inr (dedup (concat (map (\<lambda>(n, src). contributed (fetch src limit))
                  (take k (get_enabled_sources reg) @ drop (Suc k) (get_enabled_sources reg)))))"
proof -
  let ?srcs = "get_enabled_sources reg"
  let ?c = "\<lambda>(n, src). contributed (fetch src limit)"
  have ne: "?srcs \<noteq> []" using assms(1) by auto
  have split: "?srcs = take k ?srcs @ ?srcs ! k # drop (Suc k) ?srcs"
    using assms(1) by (rule id_take_nth_drop)
  have "?c (?srcs ! k) = []"
    using assms(2) by (simp add: split_def contributed_def)
  then have "concat (map ?c (take k ?srcs @ ?srcs ! k # drop (Suc k) ?srcs))
           = concat (map ?c (take k ?srcs @ drop (Suc k) ?srcs))"
    by simp
  then have "concat (map ?c ?srcs) = concat (map ?c (take k ?srcs @ drop (Suc k) ?srcs))"
    using split by simp
  then show ?thesis using fetch_all_items [OF ne, of limit] by simp
qed

lemma enabled_scenario:
  "get_enabled_sources failing = [(''A'', source_A), (''F'', source_F), (''B'', source_B)]"
  by (simp add: failing_def register_source_def get_enabled_sources_def source_A_def source_B_def
        source_F_def sample_source_def)

text \<open>
  The theorem of C2 at the registry \<open>failing\<close>, whose second enabled source raises.
\<close>

theorem fetch_all_failure_isolation_witness:
  "snd (fetch_all failing 10) =
     Inr [sample_item ''a1'' ''u1'' ''A'', sample_item ''a2'' ''u2'' ''A'', sample_item ''b3'' ''u3'' ''B'']"
proof -
  have k: "1 < length (get_enabled_sources failing)" by (simp add: enabled_scenario)
  have f: "fetch (snd (get_enabled_sources failing ! 1)) 10 = Inl (Exception ''timeout'')"
    by (simp add: enabled_scenario source_F_def sample_source_def)
  show ?thesis
    using fetch_all_failure_isolation [OF k f]
    by (simp add: enabled_scenario source_A_def source_B_def sample_source_def contributed_def
          dedup_def sample_item_def new_NewsItem_def post_init_typed_def)
qed


lemma scenario_eq: "scenario = [(''A'', source_A), (''B'', source_B), (''C'', source_C)]"
  by (simp add: scenario_def register_source_def source_A_def source_B_def source_C_def
        sample_source_def)

text \<open>
  C2 as stated fails: in the registry \<open>unlinked\<close> the second enabled source raises and
  the first contributes one item, which has no url; \<open>fetch_all\<close> returns the empty list
  and not the items of the other source.
\<close>

theorem fetch_all_loses_empty_url:
  "get_enabled_sources unlinked = [(''E'', source_E), (''F'', source_F)] \<and>
   fetch (snd (get_enabled_sources unlinked ! 1)) 10 = Inl (Exception ''timeout'') \<and>
   contributed (fetch (snd (get_enabled_sources unlinked ! 0)) 10) = [sample_item ''e1'' [] ''E''] \<and>
   snd (fetch_all unlinked 10) = Inr []"
proof -
  have en: "get_enabled_sources unlinked = [(''E'', source_E), (''F'', source_F)]"
    by (simp add: unlinked_def register_source_def get_enabled_sources_def source_E_def
          source_F_def sample_source_def)
  have "snd (fetch_all unlinked 10) = Inr []"
    using fetch_all_items [of unlinked 10]
    by (simp add: en source_E_def source_F_def sample_source_def contributed_def dedup_def
          sample_item_def new_NewsItem_def post_init_typed_def)
  then show ?thesis
    by (simp add: en) (simp add: source_E_def source_F_def sample_source_def contributed_def)
qed



text \<open>
  C4: for a name absent from the registry \<open>fetch_source\<close> prints that the source was
  not found and returns the empty list; it raises nothing.
\<close>

theorem fetch_source_unknown:
  assumes "get_source reg source_name = None"
  shows "fetch_source reg source_name limit = ([SourceNotFound source_name], Inr [])"
  using assms by (simp add: fetch_source_def)

text \<open>
  The theorem of C4 at the name \<open>Missing\<close> of the scenario.
\<close>

theorem fetch_source_unknown_witness:
  "fetch_source scenario ''Missing'' 5 = ([SourceNotFound ''Missing''], Inr [])"
proof -
  have g: "get_source scenario ''Missing'' = None"
    by (simp add: scenario_eq get_source_def)
  show ?thesis using fetch_source_unknown [OF g, of 5] by simp
qed

lemma dedup_subset: "i \<in> set (dedup xs) \<Longrightarrow> i \<in> set xs"
  using dedup_loop_urls [of i xs "{}"] by (simp add: dedup_def)

text \<open>
  C5: \<open>get_enabled_sources\<close> holds exactly the registered sources whose \<open>enabled\<close> flag
  is true; every item \<open>fetch_all\<close> returns was returned by the fetch of an enabled
  source, so none comes from a source that is only registered; and with no enabled
  source \<open>fetch_all\<close> prints a warning and returns the empty list.
\<close>

theorem enabled_filtering:
  "set (get_enabled_sources reg) = {(n, cls). (n, cls) \<in> set reg \<and> enabled cls} \<and>
   (\<forall>items i. snd (fetch_all reg limit) = Inr items \<and> i \<in> set items \<longrightarrow>
      (\<exists>n cls xs. (n, cls) \<in> set reg \<and> enabled cls \<and> fetch cls limit = Inr xs \<and> i \<in> set xs)) \<and>
   (get_enabled_sources reg = [] \<longrightarrow> fetch_all reg limit = ([NoEnabledSources], Inr []))"
proof (intro conjI allI impI)
  show en: "set (get_enabled_sources reg) = {(n, cls). (n, cls) \<in> set reg \<and> enabled cls}"
    by (auto simp: get_enabled_sources_def)
  show "fetch_all reg limit = ([NoEnabledSources], Inr [])" if "get_enabled_sources reg = []"
    using that by (simp add: fetch_all_def)
  show "\<exists>n cls xs. (n, cls) \<in> set reg \<and> enabled cls \<and> fetch cls limit = Inr xs \<and> i \<in> set xs"
    if h: "snd (fetch_all reg limit) = Inr items \<and> i \<in> set items" for items i
  proof (cases "get_enabled_sources reg = []")
    case True
    then show ?thesis using h by (auto simp: fetch_all_def)
  next
    case False
    have "items = dedup (concat (map (\<lambda>(n, src). contributed (fetch src limit)) (get_enabled_sources reg)))"
      using h fetch_all_items [OF False, of limit] by simp
    then have "i \<in> set (concat (map (\<lambda>(n, src). contributed (fetch src limit)) (get_enabled_sources reg)))"
      using h dedup_subset by blast
    then obtain n cls where m: "(n, cls) \<in> set (get_enabled_sources reg)"
        and c: "i \<in> set (contributed (fetch cls limit))"
      by auto
    from c obtain xs where "fetch cls limit = Inr xs" "i \<in> set xs"
      by (cases "fetch cls limit") (auto simp: contributed_def)
    then show ?thesis using m en by blast
  qed
qed

text \<open>
  The theorem of C5 at the scenario, and at a registry whose only source is disabled.
\<close>

theorem enabled_filtering_witness:
  "set (get_enabled_sources scenario) = {(''A'', source_A), (''B'', source_B)} \<and>
   snd (fetch_all scenario 10) =
     Inr [sample_item ''a1'' ''u1'' ''A'', sample_item ''a2'' ''u2'' ''A'', sample_item ''b3'' ''u3'' ''B''] \<and>
   (\<exists>n cls xs. (n, cls) \<in> set scenario \<and> enabled cls \<and> fetch cls 10 = Inr xs \<and>
      sample_item ''b3'' ''u3'' ''B'' \<in> set xs) \<and>
   get_enabled_sources [(''C'', source_C)] = [] \<and>
   fetch_all [(''C'', source_C)] 10 = ([NoEnabledSources], Inr [])"
proof -
  have en: "get_enabled_sources scenario = [(''A'', source_A), (''B'', source_B)]"
    by (simp add: scenario_eq get_enabled_sources_def source_A_def source_B_def source_C_def
          sample_source_def)
  have all: "snd (fetch_all scenario 10) =
     Inr [sample_item ''a1'' ''u1'' ''A'', sample_item ''a2'' ''u2'' ''A'', sample_item ''b3'' ''u3'' ''B'']"
    using fetch_all_items [of scenario 10]
    by (simp add: en source_A_def source_B_def sample_source_def contributed_def
          dedup_def sample_item_def new_NewsItem_def post_init_typed_def)
  have none: "get_enabled_sources [(''C'', source_C)] = []"
    by (simp add: get_enabled_sources_def source_C_def sample_source_def)
  show ?thesis
    using enabled_filtering [of scenario 10] enabled_filtering [of "[(''C'', source_C)]" 10]
    by (simp add: en all none)
qed

text \<open>
  C10: when the named source is registered and its fetch raises, \<open>fetch_source\<close> raises
  the same exception. Inside \<open>fetch_sources\<close> the exception is dropped: the call prints
  and returns what it would without that name, and it returns a list.
\<close>

theorem fetch_source_propagates:
  assumes "get_source reg n = Some cls" and "fetch cls limit = Inl e"
  shows "snd (fetch_source reg n limit) = Inl e \<and>
         fetch_sources reg (before @ n # after) limit = fetch_sources reg (before @ after) limit \<and>
         (\<exists>items. snd (fetch_sources reg (before @ n # after) limit) = Inr items)"
  using assms by (simp add: fetch_source_def fetch_sources_def lists_only_eq contributed_def)


text \<open>
  The theorem of C10 at the source \<open>F\<close> of the registry \<open>failing\<close>.
\<close>

theorem fetch_source_propagates_witness:
  "get_source failing ''F'' = Some source_F \<and>
   snd (fetch_source failing ''F'' 10) = Inl (Exception ''timeout'') \<and>
   fetch_sources failing [''A'', ''F'', ''B''] 10 =
     ([], Inr [sample_item ''a1'' ''u1'' ''A'', sample_item ''a2'' ''u2'' ''A'', sample_item ''b3'' ''u3'' ''B''])"
proof -
  have reg: "failing = [(''A'', source_A), (''F'', source_F), (''B'', source_B)]"
    by (simp add: failing_def register_source_def source_A_def source_B_def source_F_def
          sample_source_def)
  have g: "get_source failing ''F'' = Some source_F"
    by (simp add: reg get_source_def)
  have f: "fetch source_F 10 = Inl (Exception ''timeout'')"
    by (simp add: source_F_def sample_source_def)
  have "fetch_sources failing [''A'', ''B''] 10 =
     ([], Inr [sample_item ''a1'' ''u1'' ''A'', sample_item ''a2'' ''u2'' ''A'', sample_item ''b3'' ''u3'' ''B''])"
    by (simp add: fetch_sources_def fetch_source_def reg get_source_def source_A_def source_B_def
          sample_source_def dedup_def sample_item_def new_NewsItem_def post_init_typed_def)
  then show ?thesis
    using fetch_source_propagates [OF g f, of "[''A'']" "[''B'']"] g by simp
qed

section \<open>The limit of a fetch\<close>

lemma slice_to_length: "0 \<le> k \<Longrightarrow> int (length (slice_to k xs)) \<le> k"
  by (simp add: slice_to_def)

lemma map_filter_length: "length (List.map_filter f xs) \<le> length xs"
  by (simp add: List.map_filter_def)

lemma parse_entries_length:
  "length (parse_entries lib n es items) \<le> length items + length es"
proof (induction es arbitrary: items)
  case Nil
  then show ?case by simp
next
  case (Cons e es)
  show ?case
    using Cons.IH [of items] Cons.IH [of "items @ [the (projr (parse_entry lib n e))]"]
    by (auto split: sum.splits option.splits)
qed

lemma parse_articles_length:
  "length (parse_articles lib as items) \<le> length items + length as"
proof (induction as arbitrary: items)
  case Nil
  then show ?case by simp
next
  case (Cons a as)
  show ?case
    using Cons.IH [of items] Cons.IH [of "items @ [the (parse_repo_article lib a)]"]
    by (auto split: option.splits)
qed

text \<open>
  C7: for a limit \<open>k\<close> that is not negative, so for every positive limit, which is what
  \<open>fetch\<close> is specified for, every list returned by the fetch of the Hacker News source,
  of an RSS source and of the GitHub Trending source has at most \<open>k\<close> items, whatever
  the upstream answers.
\<close>

theorem limit_respected:
  assumes "0 \<le> k"
  shows "(\<forall>xs. HackerNews_fetch isoformat up k = Inr xs \<longrightarrow> int (length xs) \<le> k) \<and>
         (\<forall>xs. RSS_fetch rlib self_name feed_url resp k = Inr xs \<longrightarrow> int (length xs) \<le> k) \<and>
         (\<forall>xs. GitHubTrending_fetch glib page k = Inr xs \<longrightarrow> int (length xs) \<le> k)"
proof (intro conjI allI impI)
  fix xs
  assume h: "HackerNews_fetch isoformat up k = Inr xs"
  show "int (length xs) \<le> k"
  proof (cases "topstories up")
    case (Failed e)
    then show ?thesis using h by (simp add: HackerNews_fetch_def)
  next
    case (Response status body)
    show ?thesis
    proof (cases "status \<noteq> 200")
      case True
      then show ?thesis using h Response assms by (auto simp: HackerNews_fetch_def)
    next
      case False
      then obtain story_ids where b: "body = Inr story_ids"
        using h Response by (cases body) (auto simp: HackerNews_fetch_def)
      have "xs = List.map_filter (\<lambda>result. result)
                   (map (fetch_story isoformat (item_json up)) (slice_to k story_ids))"
        using h Response False b by (simp add: HackerNews_fetch_def)
      then have "length xs \<le> length (slice_to k story_ids)"
        using map_filter_length [of "\<lambda>result. result" "map (fetch_story isoformat (item_json up)) (slice_to k story_ids)"]
        by simp
      then show ?thesis using slice_to_length [OF assms, of story_ids] by linarith
    qed
  qed
next
  fix xs
  assume h: "RSS_fetch rlib self_name feed_url resp k = Inr xs"
  have "xs = [] \<or> (\<exists>content. xs = parse_entries rlib self_name (slice_to k (feedparser_parse rlib content)) [])"
    using h by (auto simp: RSS_fetch_def split: if_splits response.splits sum.splits)
  then show "int (length xs) \<le> k"
  proof
    assume "xs = []"
    then show ?thesis using assms by simp
  next
    assume "\<exists>content. xs = parse_entries rlib self_name (slice_to k (feedparser_parse rlib content)) []"
    then obtain content where
      x: "xs = parse_entries rlib self_name (slice_to k (feedparser_parse rlib content)) []" by blast
    have "length xs \<le> length (slice_to k (feedparser_parse rlib content))"
      using parse_entries_length [of rlib self_name "slice_to k (feedparser_parse rlib content)" "[]"] x
      by simp
    then show ?thesis using slice_to_length [OF assms, of "feedparser_parse rlib content"] by linarith
  qed
next
  fix xs
  assume h: "GitHubTrending_fetch glib page k = Inr xs"
  have "xs = [] \<or> (\<exists>html. xs = parse_articles glib (slice_to k (select_articles glib html)) [])"
    using h by (auto simp: GitHubTrending_fetch_def parse_trending_page_def
                  split: if_splits response.splits sum.splits)
  then show "int (length xs) \<le> k"
  proof
    assume "xs = []"
    then show ?thesis using assms by simp
  next
    assume "\<exists>html. xs = parse_articles glib (slice_to k (select_articles glib html)) []"
    then obtain html where
      x: "xs = parse_articles glib (slice_to k (select_articles glib html)) []" by blast
    have "length xs \<le> length (slice_to k (select_articles glib html))"
      using parse_articles_length [of glib "slice_to k (select_articles glib html)" "[]"] x
      by simp
    then show ?thesis using slice_to_length [OF assms, of "select_articles glib html"] by linarith
  qed
qed


lemma sample_hn_fetch:
  "HackerNews_fetch sample_isoformat sample_hn limit =
     Inr (map (\<lambda>i. the (fetch_story sample_isoformat sample_item_json i)) (slice_to limit [1, 2, 3]))"
proof -
  have "\<And>i. fetch_story sample_isoformat sample_item_json i \<noteq> None"
    by (simp add: fetch_story_def sample_item_json_def sample_story_def sample_isoformat_def)
  then have "\<And>ids. List.map_filter (\<lambda>result. result) (map (fetch_story sample_isoformat sample_item_json) ids)
      = map (\<lambda>i. the (fetch_story sample_isoformat sample_item_json i)) ids"
    by (simp add: List.map_filter_def comp_def)
  then show ?thesis
    by (simp add: HackerNews_fetch_def sample_hn_def)
qed

lemma sample_entry_parsed:
  "parse_entry sample_rss_lib n sample_entry \<noteq> Inl e \<and> parse_entry sample_rss_lib n sample_entry \<noteq> Inr None"
  by (simp add: parse_entry_def sample_entry_def sample_rss_lib_def Let_def
        strip_def lstrip_def rstrip_def isspace_def)

lemma sample_article_parsed: "parse_repo_article sample_gh_lib sample_article \<noteq> None"
  by (simp add: parse_repo_article_def sample_article_def sample_gh_lib_def Let_def strip_chars_def)

text \<open>
  The theorem of C7 at the limit 2 and upstreams with three entries each.
\<close>

theorem limit_respected_witness:
  "(0::int) \<le> 2 \<and>
   length (projr (HackerNews_fetch sample_isoformat sample_hn 2)) = 2 \<and>
   int (length (projr (HackerNews_fetch sample_isoformat sample_hn 2))) \<le> 2 \<and>
   length (projr (RSS_fetch sample_rss_lib ''V2EX'' ''https://www.v2ex.com/index.xml'' (Response 200 (Inr ''xml'')) 2)) = 2 \<and>
   int (length (projr (RSS_fetch sample_rss_lib ''V2EX'' ''https://www.v2ex.com/index.xml'' (Response 200 (Inr ''xml'')) 2))) \<le> 2 \<and>
   length (projr (GitHubTrending_fetch sample_gh_lib (Response 200 (Inr ''html'')) 2)) = 2 \<and>
   int (length (projr (GitHubTrending_fetch sample_gh_lib (Response 200 (Inr ''html'')) 2))) \<le> 2"
proof -
  have k: "(0::int) \<le> 2" by simp
  have hn: "HackerNews_fetch sample_isoformat sample_hn 2 =
              Inr (map (\<lambda>i. the (fetch_story sample_isoformat sample_item_json i)) [1, 2])"
    by (simp add: sample_hn_fetch slice_to_def)
  obtain item where p: "parse_entry sample_rss_lib ''V2EX'' sample_entry = Inr (Some item)"
    using sample_entry_parsed [of "''V2EX''"]
    by (cases "parse_entry sample_rss_lib ''V2EX'' sample_entry") auto
  have rss: "RSS_fetch sample_rss_lib ''V2EX'' ''https://www.v2ex.com/index.xml'' (Response 200 (Inr ''xml'')) 2
              = Inr [item, item]"
    by (simp add: RSS_fetch_def sample_rss_lib_def sample_feed_def slice_to_def p [unfolded sample_rss_lib_def])
  obtain repo where a: "parse_repo_article sample_gh_lib sample_article = Some repo"
    using sample_article_parsed by blast
  have gh: "GitHubTrending_fetch sample_gh_lib (Response 200 (Inr ''html'')) 2 = Inr [repo, repo]"
    by (simp add: GitHubTrending_fetch_def parse_trending_page_def sample_gh_lib_def sample_page_def
          slice_to_def a [unfolded sample_gh_lib_def])
  show ?thesis
    using limit_respected [OF k, of sample_isoformat sample_hn sample_rss_lib "''V2EX''"
        "''https://www.v2ex.com/index.xml''" "Response 200 (Inr ''xml'')" sample_gh_lib
        "Response 200 (Inr ''html'')"]
    by (simp add: hn rss gh)
qed

end
